theory Spec2Isabelle
  imports Main "HOL-Library.Word" "HOL-Library.Sublist"
begin

section \<open>Bytes, base64 and Python slices\<close>

unbundle bit_operations_syntax

type_synonym byte = "8 word"

text \<open>
  \<^verbatim>\<open>FILE_HEADER = base64.b64decode("R0lGODlhAQABAIAAAAUEBAAAACwAAAAAAQABAAACAkQBADs=")\<close>

  The decoder is modelled for the input it is given here: every character outside the
  standard alphabet (the padding character included) is discarded, as the non-validating
  decoder of the library does, and the remaining six-bit values are packed four at a time
  into three bytes; a final group of three or two values gives two bytes or one.
\<close>

definition b64_alphabet :: string where
  "b64_alphabet = ''ABCDEFGHIJKLMNOPQRSTUVWXYZabcdefghijklmnopqrstuvwxyz0123456789+/''"

fun b64_index :: "string \<Rightarrow> char \<Rightarrow> nat option" where
  "b64_index [] c = None"
| "b64_index (a # as) c = (if a = c then Some 0 else map_option Suc (b64_index as c))"

fun b64_groups :: "nat list \<Rightarrow> byte list" where
  "b64_groups (a # b # c # d # rest) =
     [of_nat (a * 4 + b div 16), of_nat ((b mod 16) * 16 + c div 4), of_nat ((c mod 4) * 64 + d)]
     @ b64_groups rest"
| "b64_groups [a, b, c] = [of_nat (a * 4 + b div 16), of_nat ((b mod 16) * 16 + c div 4)]"
| "b64_groups [a, b] = [of_nat (a * 4 + b div 16)]"
| "b64_groups _ = []"

definition b64decode :: "string \<Rightarrow> byte list" where
  "b64decode s = b64_groups (List.map_filter (b64_index b64_alphabet) s)"

definition FILE_HEADER :: "byte list" where
  "FILE_HEADER = b64decode ''R0lGODlhAQABAIAAAAUEBAAAACwAAAAAAQABAAACAkQBADs=''"

text \<open>\<^verbatim>\<open>len(FILE_HEADER)\<close>, the length the spec calls \<open>L\<close>.\<close>

definition L :: nat where
  "L = length FILE_HEADER"

text \<open>
  A Python slice \<^verbatim>\<open>xs[i:j]\<close> with integer bounds: a negative bound counts from the
  end, and every bound is clamped into \<open>0..len(xs)\<close>; an empty range gives the empty
  sequence.
\<close>

definition py_bound :: "nat \<Rightarrow> int \<Rightarrow> nat" where
  "py_bound n i = (if i < 0 then nat (max 0 (i + int n)) else min n (nat i))"

definition py_slice :: "'a list \<Rightarrow> int \<Rightarrow> int \<Rightarrow> 'a list" where
  "py_slice xs i j =
     (let lo = py_bound (length xs) i; hi = py_bound (length xs) j
      in take (hi - lo) (drop lo xs))"

section \<open>The backing filesystem\<close>

text \<open>
  The calls of the \<^verbatim>\<open>os\<close> module the driver makes, over an explicit store: the
  regular files of the backing directory by path, and the table of open descriptors.
  A descriptor has a path, a cursor and the access mode it was opened with. Every call
  returns its result, or the error it raises, together with the store it leaves:
  what a call did before it raised stays done. An error is the code of the \<^verbatim>\<open>OSError\<close>
  raised, or \<^verbatim>\<open>OverflowError\<close> for an integer that does not fit the file offset type.
\<close>

datatype errno = EINVAL | EBADF | ENOENT | EFBIG | OverflowError

datatype access_mode = O_RDONLY | O_WRONLY | O_RDWR

record open_file =
  f_path :: string
  f_pos :: nat
  f_acc :: access_mode

record os_state =
  files :: "string \<rightharpoonup> byte list"
  fdtab :: "open_file option list"

type_synonym 'a result = "(errno + 'a) \<times> os_state"

definition fd_lookup :: "os_state \<Rightarrow> nat \<Rightarrow> open_file option" where
  "fd_lookup s fh = (if fh < length (fdtab s) then fdtab s ! fh else None)"

text \<open>A new descriptor is the lowest number that is not open.\<close>

fun fd_alloc :: "open_file option list \<Rightarrow> open_file \<Rightarrow> nat \<times> open_file option list" where
  "fd_alloc [] f = (0, [Some f])"
| "fd_alloc (None # t) f = (0, Some f # t)"
| "fd_alloc (Some g # t) f = (case fd_alloc t f of (n, t') \<Rightarrow> (Suc n, Some g # t'))"

text \<open>
  \<^verbatim>\<open>os.open(path, os.O_RDWR | os.O_CREAT | os.O_TRUNC, mode)\<close>: the file is created,
  or emptied when it exists, and opened for reading and writing with the cursor at 0.
  Permissions and directories are not part of the store, so the call does not fail here.
\<close>

definition os_open_creat_trunc :: "os_state \<Rightarrow> string \<Rightarrow> int \<Rightarrow> nat result" where
  "os_open_creat_trunc s path mode =
     (case fd_alloc (fdtab s) \<lparr>f_path = path, f_pos = 0, f_acc = O_RDWR\<rparr> of
        (fh, t) \<Rightarrow> (Inr fh, s\<lparr>files := (files s)(path \<mapsto> []), fdtab := t\<rparr>))"

text \<open>\<^verbatim>\<open>os.lseek(fh, pos, 0)\<close>: the cursor is set to \<open>pos\<close>; a negative one is refused.\<close>

definition os_lseek :: "os_state \<Rightarrow> nat \<Rightarrow> int \<Rightarrow> int result" where
  "os_lseek s fh pos =
     (case fd_lookup s fh of
        None \<Rightarrow> (Inl EBADF, s)
      | Some f \<Rightarrow>
          if pos < 0 then (Inl EINVAL, s)
          else (Inr pos, s\<lparr>fdtab := list_update (fdtab s) fh (Some (f\<lparr>f_pos := nat pos\<rparr>))\<rparr>))"

text \<open>
  \<^verbatim>\<open>os.read(fh, n)\<close>: a negative \<open>n\<close> is refused before the descriptor is looked at;
  otherwise up to \<open>n\<close> bytes from the cursor, fewer at the end of the file, and the
  cursor moves past them.
\<close>

definition os_read :: "os_state \<Rightarrow> nat \<Rightarrow> int \<Rightarrow> byte list result" where
  "os_read s fh n =
     (if n < 0 then (Inl EINVAL, s)
      else case fd_lookup s fh of
        None \<Rightarrow> (Inl EBADF, s)
      | Some f \<Rightarrow>
          if f_acc f = O_WRONLY then (Inl EBADF, s)
          else case files s (f_path f) of
            None \<Rightarrow> (Inl EBADF, s)
          | Some c \<Rightarrow>
              let d = take (nat n) (drop (f_pos f) c)
              in (Inr d, s\<lparr>fdtab := list_update (fdtab s) fh (Some (f\<lparr>f_pos := f_pos f + length d\<rparr>))\<rparr>))"

text \<open>
  \<^verbatim>\<open>os.write(fh, data)\<close>: the bytes replace the file's bytes from the cursor on; a gap
  between the end of the file and the cursor is filled with zero bytes; the cursor
  moves past what was written. Writing no bytes changes nothing.
\<close>

definition os_write :: "os_state \<Rightarrow> nat \<Rightarrow> byte list \<Rightarrow> int result" where
  "os_write s fh data =
     (case fd_lookup s fh of
        None \<Rightarrow> (Inl EBADF, s)
      | Some f \<Rightarrow>
          if f_acc f = O_RDONLY then (Inl EBADF, s)
          else case files s (f_path f) of
            None \<Rightarrow> (Inl EBADF, s)
          | Some c \<Rightarrow>
              if data = [] then (Inr 0, s)
              else
                let p = f_pos f;
                    c' = take p c @ replicate (p - length c) 0 @ data @ drop (p + length data) c
                in (Inr (int (length data)),
                    s\<lparr>files := (files s)(f_path f \<mapsto> c'),
                      fdtab := list_update (fdtab s) fh (Some (f\<lparr>f_pos := p + length data\<rparr>))\<rparr>))"

text \<open>
  \<^verbatim>\<open>with open(path, 'r+') as f: f.truncate(n)\<close>, the built-in \<^verbatim>\<open>open\<close>: the file must
  exist. The length is converted to a signed 64-bit file offset, which raises
  \<^verbatim>\<open>OverflowError\<close> outside that range; a negative length is refused by the system call,
  and so is a length above \<open>maxbytes\<close>, the largest file size the backing filesystem
  supports. Otherwise the file is cut to \<open>n\<close> bytes or extended to \<open>n\<close> bytes with
  zero bytes. The descriptor opened for it is closed again on every path, so the table
  of descriptors is as before.
\<close>

definition file_truncate :: "nat \<Rightarrow> os_state \<Rightarrow> string \<Rightarrow> int \<Rightarrow> unit result" where
  "file_truncate maxbytes s path n =
     (case files s path of
        None \<Rightarrow> (Inl ENOENT, s)
      | Some c \<Rightarrow>
          if n < - (2 ^ 63) \<or> 2 ^ 63 \<le> n then (Inl OverflowError, s)
          else if n < 0 then (Inl EINVAL, s)
          else if int maxbytes < n then (Inl EFBIG, s)
          else (Inr (), s\<lparr>files := (files s)(path \<mapsto> take (nat n) c @ replicate (nat n - length c) 0)\<rparr>))"

section \<open>Attributes\<close>

text \<open>
  What \<^verbatim>\<open>os.lstat\<close> returns, and the dictionary \<^verbatim>\<open>getattr\<close> builds from it. The
  time stamps are floating-point numbers that are only copied, so their type is left
  open. A dictionary value is an integer or a time stamp.
\<close>

record 't stat_result =
  st_mode :: int
  st_ino :: int
  st_dev :: int
  st_nlink :: int
  st_uid :: int
  st_gid :: int
  st_size :: int
  st_atime :: 't
  st_mtime :: 't
  st_ctime :: 't

datatype 't attr = IntV int | TimeV 't

text \<open>
  The file type in \<open>st_mode\<close>, as the \<^verbatim>\<open>stat\<close> module reads it: the bits \<^verbatim>\<open>0o170000\<close>
  are \<^verbatim>\<open>0o100000\<close> for a regular file and \<^verbatim>\<open>0o120000\<close> for a symbolic link.
\<close>

definition S_IFMT :: "int \<Rightarrow> int" where
  "S_IFMT mode = mode AND 61440"

definition S_ISREG :: "int \<Rightarrow> bool" where
  "S_ISREG mode = (S_IFMT mode = 32768)"

definition S_ISLNK :: "int \<Rightarrow> bool" where
  "S_ISLNK mode = (S_IFMT mode = 40960)"

text \<open>
  \<^verbatim>\<open>os.stat(path)\<close> follows symbolic links and \<^verbatim>\<open>os.lstat(path)\<close> does not. Given
  \<open>st\<close>, what \<^verbatim>\<open>os.lstat\<close> returns for a path, \<^verbatim>\<open>os.stat\<close> returns the same unless the
  path is a symbolic link; then it returns the stat of what the link resolves to, or
  raises when it resolves to nothing (\<open>target\<close> is \<open>None\<close>).
  \<^verbatim>\<open>os.path.isfile(path)\<close> is true when \<^verbatim>\<open>os.stat(path)\<close> succeeds and gives a regular
  file.
\<close>

definition os_stat :: "'t stat_result \<Rightarrow> 't stat_result option \<Rightarrow> 't stat_result option" where
  "os_stat st target = (if S_ISLNK (st_mode st) then target else Some st)"

definition os_path_isfile :: "'t stat_result \<Rightarrow> 't stat_result option \<Rightarrow> bool" where
  "os_path_isfile st target =
     (case os_stat st target of None \<Rightarrow> False | Some t \<Rightarrow> S_ISREG (st_mode t))"

text \<open>\<^verbatim>\<open>getattr(st, key)\<close> for the keys the driver asks for.\<close>

definition stat_field :: "'t stat_result \<Rightarrow> string \<Rightarrow> 't attr option" where
  "stat_field st key =
     (if key = ''st_atime'' then Some (TimeV (st_atime st))
      else if key = ''st_ctime'' then Some (TimeV (st_ctime st))
      else if key = ''st_gid'' then Some (IntV (st_gid st))
      else if key = ''st_mode'' then Some (IntV (st_mode st))
      else if key = ''st_mtime'' then Some (TimeV (st_mtime st))
      else if key = ''st_nlink'' then Some (IntV (st_nlink st))
      else if key = ''st_size'' then Some (IntV (st_size st))
      else if key = ''st_uid'' then Some (IntV (st_uid st))
      else if key = ''st_ino'' then Some (IntV (st_ino st))
      else if key = ''st_dev'' then Some (IntV (st_dev st))
      else None)"

definition attr_keys :: "string list" where
  "attr_keys = [''st_atime'', ''st_ctime'', ''st_gid'', ''st_mode'', ''st_mtime'', ''st_nlink'',
                ''st_size'', ''st_uid'']"

text \<open>
  \<^verbatim>\<open>dict((key, getattr(st, key)) for key in (...))\<close>: a later pair for a key replaces an
  earlier one.
\<close>

fun dict_of :: "(string \<times> 'v) list \<Rightarrow> (string \<rightharpoonup> 'v)" where
  "dict_of [] = Map.empty"
| "dict_of ((k, v) # kvs) = (dict_of kvs)(k := Some v)"

definition stat_dict :: "'t stat_result \<Rightarrow> (string \<rightharpoonup> 't attr)" where
  "stat_dict st = dict_of (rev (List.map_filter (\<lambda>key. map_option (Pair key) (stat_field st key)) attr_keys))"

text \<open>\<^verbatim>\<open>dictionary['st_size'] = dictionary['st_size'] + delta\<close>\<close>

definition shift_size :: "(string \<rightharpoonup> 't attr) \<Rightarrow> int \<Rightarrow> (string \<rightharpoonup> 't attr)" where
  "shift_size d delta =
     (case d ''st_size'' of
        Some (IntV n) \<Rightarrow> d(''st_size'' := Some (IntV (n + delta)))
      | _ \<Rightarrow> d)"

section \<open>The forward driver: class GIFFS\<close>

text \<open>
  Every method gets the backing path (\<^verbatim>\<open>__call__\<close> has put the root in front of it);
  \<^verbatim>\<open>truncate\<close> also gets the largest file size of the backing filesystem.
  The methods that seek and transfer hold \<^verbatim>\<open>self.rwlock\<close> meanwhile; one call runs
  at a time here, so the lock is free when a method takes it and free again when it
  returns, and it is not part of the state.
\<close>

definition GIFFS_create :: "os_state \<Rightarrow> string \<Rightarrow> int \<Rightarrow> nat result" where
  "GIFFS_create s path mode =
     (case os_open_creat_trunc s path mode of
        (Inl e, s1) \<Rightarrow> (Inl e, s1)
      | (Inr fh, s1) \<Rightarrow>
          (case os_write s1 fh FILE_HEADER of
             (Inl e, s2) \<Rightarrow> (Inl e, s2)
           | (Inr _, s2) \<Rightarrow> (Inr fh, s2)))"

text \<open>
  \<^verbatim>\<open>getattr\<close> gets what \<^verbatim>\<open>os.lstat(path)\<close> and \<^verbatim>\<open>os.path.isfile(path)\<close> returned.
\<close>

definition GIFFS_getattr :: "'t stat_result \<Rightarrow> bool \<Rightarrow> (string \<rightharpoonup> 't attr)" where
  "GIFFS_getattr st isfile =
     (let dictionary = stat_dict st
      in if isfile then shift_size dictionary (- int L) else dictionary)"

definition GIFFS_read :: "os_state \<Rightarrow> string \<Rightarrow> int \<Rightarrow> int \<Rightarrow> nat \<Rightarrow> byte list result" where
  "GIFFS_read s path sz offset fh =
     (case os_lseek s fh (offset + int L) of
        (Inl e, s1) \<Rightarrow> (Inl e, s1)
      | (Inr _, s1) \<Rightarrow> os_read s1 fh sz)"

definition GIFFS_truncate :: "nat \<Rightarrow> os_state \<Rightarrow> string \<Rightarrow> int \<Rightarrow> unit result" where
  "GIFFS_truncate maxbytes s path len = file_truncate maxbytes s path (len + int L)"

definition GIFFS_write :: "os_state \<Rightarrow> string \<Rightarrow> byte list \<Rightarrow> int \<Rightarrow> nat \<Rightarrow> int result" where
  "GIFFS_write s path data offset fh =
     (case os_lseek s fh (offset + int L) of
        (Inl e, s1) \<Rightarrow> (Inl e, s1)
      | (Inr _, s1) \<Rightarrow> os_write s1 fh data)"

section \<open>The reverse driver: class GIFFSReverse\<close>

definition GIFFSReverse_getattr :: "'t stat_result \<Rightarrow> bool \<Rightarrow> (string \<rightharpoonup> 't attr)" where
  "GIFFSReverse_getattr st isfile =
     (let dictionary = stat_dict st
      in if isfile then shift_size dictionary (int L) else dictionary)"

text \<open>
  In the first branch the slice of the header is taken, then the descriptor is sought to
  0 and \<^verbatim>\<open>size - (len(FILE_HEADER) - offset)\<close> bytes are read, whatever the sign of that
  number.
\<close>

definition GIFFSReverse_read :: "os_state \<Rightarrow> string \<Rightarrow> int \<Rightarrow> int \<Rightarrow> nat \<Rightarrow> byte list result" where
  "GIFFSReverse_read s path sz offset fh =
     (if offset < int L then
        let data = py_slice FILE_HEADER offset (offset + sz)
        in (case os_lseek s fh 0 of
              (Inl e, s1) \<Rightarrow> (Inl e, s1)
            | (Inr _, s1) \<Rightarrow>
                (case os_read s1 fh (sz - (int L - offset)) of
                   (Inl e, s2) \<Rightarrow> (Inl e, s2)
                 | (Inr rest, s2) \<Rightarrow> (Inr (data @ rest), s2)))
      else
        (case os_lseek s fh (offset - int L) of
           (Inl e, s1) \<Rightarrow> (Inl e, s1)
         | (Inr _, s1) \<Rightarrow> os_read s1 fh sz))"

section \<open>A concrete store\<close>

text \<open>
  One backing file of four bytes, and descriptor 3 open on it for reading with its
  cursor at 2.
\<close>

definition demo_state :: os_state where
  "demo_state = \<lparr>files = [''/srv/a'' \<mapsto> [0x58, 0x59, 0x5a, 0x21]],
                 fdtab = [None, None, None, Some \<lparr>f_path = ''/srv/a'', f_pos = 2, f_acc = O_RDONLY\<rparr>]\<rparr>"

text \<open>
  A forward-mode backing file, the header followed by two bytes, and descriptor 3 open
  on it for reading and writing.
\<close>

definition demo_fwd :: os_state where
  "demo_fwd = \<lparr>files = [''/srv/b'' \<mapsto> FILE_HEADER @ [0x68, 0x69]],
               fdtab = [None, None, None, Some \<lparr>f_path = ''/srv/b'', f_pos = 0, f_acc = O_RDWR\<rparr>]\<rparr>"

text \<open>What \<^verbatim>\<open>os.lstat\<close> gives for a regular file of ten bytes.\<close>

definition demo_stat :: "int stat_result" where
  "demo_stat = \<lparr>st_mode = 33188, st_ino = 7, st_dev = 2049, st_nlink = 1, st_uid = 1000,
                 st_gid = 1000, st_size = 10, st_atime = 3, st_mtime = 2, st_ctime = 1\<rparr>"

text \<open>
  What \<^verbatim>\<open>os.lstat\<close> gives for a symbolic link whose target path has four characters.
\<close>

definition demo_link_stat :: "int stat_result" where
  "demo_link_stat = \<lparr>st_mode = 41471, st_ino = 8, st_dev = 2049, st_nlink = 1, st_uid = 1000,
                      st_gid = 1000, st_size = 4, st_atime = 3, st_mtime = 2, st_ctime = 1\<rparr>"

section \<open>Facts about the model\<close>

lemma FILE_HEADER_bytes:
  "FILE_HEADER = [0x47, 0x49, 0x46, 0x38, 0x39, 0x61, 0x01, 0x00, 0x01, 0x00, 0x80, 0x00, 0x00,
                  0x05, 0x04, 0x04, 0x00, 0x00, 0x00, 0x2c, 0x00, 0x00, 0x00, 0x00, 0x01, 0x00,
                  0x01, 0x00, 0x00, 0x02, 0x02, 0x44, 0x01, 0x00, 0x3b]"
  by (simp add: FILE_HEADER_def b64decode_def b64_alphabet_def List.map_filter_simps)

lemma L_35: "L = 35"
  by (simp add: L_def FILE_HEADER_bytes)

lemma FILE_HEADER_nonempty: "FILE_HEADER \<noteq> []"
  by (simp add: FILE_HEADER_bytes)

lemma fd_alloc_entry: "fd_alloc t f = (n, t') \<Longrightarrow> n < length t' \<and> t' ! n = Some f"
proof (induction t f arbitrary: n t' rule: fd_alloc.induct)
  case (3 g t f)
  then show ?case by (auto split: prod.splits)
qed auto

lemma fd_lookup_update:
  "fd_lookup s fh = Some f \<Longrightarrow>
   fd_lookup (s\<lparr>fdtab := list_update (fdtab s) fh (Some g)\<rparr>) fh = Some g"
  by (auto simp: fd_lookup_def split: if_splits)

lemma os_lseek_ok:
  assumes "fd_lookup s fh = Some f" and "0 \<le> pos"
  shows "os_lseek s fh pos = (Inr pos, s\<lparr>fdtab := list_update (fdtab s) fh (Some (f\<lparr>f_pos := nat pos\<rparr>))\<rparr>)"
  using assms by (simp add: os_lseek_def)

lemma GIFFS_read_ok:
  assumes "fd_lookup s fh = Some f" and "f_acc f \<noteq> O_WRONLY"
    and "files s (f_path f) = Some c" and "0 \<le> offset" and "0 \<le> sz"
  shows "\<exists>s'. GIFFS_read s path sz offset fh = (Inr (take (nat sz) (drop (nat offset + L) c)), s')
           \<and> files s' = files s"
  using assms
  by (simp add: GIFFS_read_def os_lseek_ok os_read_def fd_lookup_update nat_add_distrib Let_def)

lemma GIFFS_write_ok:
  assumes "fd_lookup s fh = Some f" and "f_acc f \<noteq> O_RDONLY"
    and "files s (f_path f) = Some c" and "0 \<le> offset"
  shows "\<exists>s'. GIFFS_write s path data offset fh = (Inr (int (length data)), s')
           \<and> files s' = (if data = [] then files s
                else (files s)(f_path f \<mapsto> take (nat offset + L) c
                        @ replicate (nat offset + L - length c) 0 @ data
                        @ drop (nat offset + L + length data) c))
           \<and> fd_lookup s' fh = Some (f\<lparr>f_pos := (if data = [] then nat offset + L else nat offset + L + length data)\<rparr>)"
proof -
  have len: "fh < length (fdtab s)"
    using assms(1) by (simp add: fd_lookup_def split: if_splits)
  show ?thesis
    using assms len
    by (simp add: GIFFS_write_def os_lseek_ok os_write_def fd_lookup_update nat_add_distrib Let_def)
      (simp add: fd_lookup_def)
qed

lemma GIFFS_create_ok:
  "\<exists>fh s'. GIFFS_create s path mode = (Inr fh, s')
      \<and> files s' = (files s)(path \<mapsto> FILE_HEADER)
      \<and> fd_lookup s' fh = Some \<lparr>f_path = path, f_pos = L, f_acc = O_RDWR\<rparr>"
proof -
  obtain n t where a: "fd_alloc (fdtab s) \<lparr>f_path = path, f_pos = 0, f_acc = O_RDWR\<rparr> = (n, t)"
    by (cases "fd_alloc (fdtab s) \<lparr>f_path = path, f_pos = 0, f_acc = O_RDWR\<rparr>")
  from fd_alloc_entry [OF a] show ?thesis
    by (simp add: GIFFS_create_def os_open_creat_trunc_def a os_write_def fd_lookup_def
        FILE_HEADER_nonempty L_def Let_def)
qed

lemma py_slice_tail:
  assumes "0 \<le> i" and "int (length xs) \<le> j"
  shows "py_slice xs i j = drop (nat i) xs"
  using assms by (auto simp: py_slice_def py_bound_def Let_def min_def)

lemma os_read_ok:
  assumes "fd_lookup s fh = Some f" and "f_acc f \<noteq> O_WRONLY"
    and "files s (f_path f) = Some c" and "0 \<le> n"
  shows "os_read s fh n = (Inr (take (nat n) (drop (f_pos f) c)),
           s\<lparr>fdtab := list_update (fdtab s) fh
                (Some (f\<lparr>f_pos := f_pos f + length (take (nat n) (drop (f_pos f) c))\<rparr>))\<rparr>)"
  using assms by (simp add: os_read_def Let_def)

lemma GIFFSReverse_read_head:
  assumes "fd_lookup s fh = Some f" and "f_acc f \<noteq> O_WRONLY"
    and "files s (f_path f) = Some c"
    and "0 \<le> offset" and "offset < int L" and "int L - offset \<le> sz"
  shows "\<exists>s'. GIFFSReverse_read s path sz offset fh =
           (Inr (drop (nat offset) FILE_HEADER @ take (nat (sz - (int L - offset))) c), s')
         \<and> files s' = files s"
proof -
  let ?s1 = "s\<lparr>fdtab := list_update (fdtab s) fh (Some (f\<lparr>f_pos := 0\<rparr>))\<rparr>"
  have seek: "os_lseek s fh 0 = (Inr 0, ?s1)"
    using os_lseek_ok [OF assms(1), of 0] by simp
  have look: "fd_lookup ?s1 fh = Some (f\<lparr>f_pos := 0\<rparr>)"
    using assms(1) by (rule fd_lookup_update)
  have "\<exists>s2. os_read ?s1 fh (sz - (int L - offset)) =
      (Inr (take (nat (sz - (int L - offset))) c), s2) \<and> files s2 = files s"
    using os_read_ok [OF look, of c "sz - (int L - offset)"] assms by simp
  then obtain s2 where rd: "os_read ?s1 fh (sz - (int L - offset)) =
      (Inr (take (nat (sz - (int L - offset))) c), s2)" and fs: "files s2 = files s"
    by blast
  have sl: "py_slice FILE_HEADER offset (offset + sz) = drop (nat offset) FILE_HEADER"
    using assms by (intro py_slice_tail) (simp_all add: L_def)
  show ?thesis
    using assms(5) fs by (simp add: GIFFSReverse_read_def Let_def seek rd sl)
qed

lemma GIFFSReverse_read_short:
  assumes "fd_lookup s fh = Some f" and "offset < int L" and "sz < int L - offset"
  shows "GIFFSReverse_read s path sz offset fh =
           (Inl EINVAL, s\<lparr>fdtab := list_update (fdtab s) fh (Some (f\<lparr>f_pos := 0\<rparr>))\<rparr>)"
  using assms by (simp add: GIFFSReverse_read_def Let_def os_lseek_ok os_read_def)

lemma file_truncate_ok:
  assumes "files s path = Some c" and "0 \<le> n" and "n \<le> int maxbytes" and "n < 2 ^ 63"
  shows "file_truncate maxbytes s path n =
           (Inr (), s\<lparr>files := (files s)(path \<mapsto> take (nat n) c @ replicate (nat n - length c) 0)\<rparr>)"
  using assms by (simp add: file_truncate_def)

lemma file_truncate_refused:
  assumes "files s path = Some c" and "0 \<le> n" and "int maxbytes < n \<or> 2 ^ 63 \<le> n"
  shows "\<exists>e. file_truncate maxbytes s path n = (Inl e, s)"
  using assms by (auto simp: file_truncate_def)

lemma resize_keeps_header:
  assumes "prefix FILE_HEADER c" and "L \<le> n"
  shows "prefix FILE_HEADER (take n c @ replicate (n - length c) 0)"
proof -
  obtain r where "c = FILE_HEADER @ r" using assms(1) by (auto simp: prefix_def)
  then have "take n c = FILE_HEADER @ take (n - L) r"
    using assms(2) by (simp add: L_def)
  then show ?thesis by simp
qed

lemma prefix_take_L: "prefix FILE_HEADER c \<Longrightarrow> take L c = FILE_HEADER"
  by (auto simp: prefix_def L_def)

lemma GIFFS_write_keeps_header:
  assumes "files s q = Some c" and "L \<le> length c" and "0 \<le> offset"
  shows "\<exists>c'. files (snd (GIFFS_write s path data offset fh)) q = Some c' \<and> take L c' = take L c"
proof (cases "fd_lookup s fh")
  case None
  with assms show ?thesis by (simp add: GIFFS_write_def os_lseek_def)
next
  case (Some f)
  have len: "fh < length (fdtab s)"
    using Some by (simp add: fd_lookup_def split: if_splits)
  have p: "0 \<le> offset + int L" using assms(3) by simp
  show ?thesis
    using assms len
    by (auto simp: GIFFS_write_def os_lseek_ok [OF Some p] os_write_def fd_lookup_def Let_def
        nat_add_distrib split: option.splits)
qed

lemma GIFFS_truncate_keeps_header:
  assumes "files s q = Some c" and "L \<le> length c" and "0 \<le> len"
  shows "\<exists>c'. files (snd (GIFFS_truncate maxbytes s path len)) q = Some c' \<and> take L c' = take L c"
  using assms
  by (auto simp: GIFFS_truncate_def file_truncate_def nat_add_distrib split: option.splits)

lemma GIFFS_create_keeps_header:
  assumes "files s q = Some c" and "prefix FILE_HEADER c"
  shows "\<exists>c'. files (snd (GIFFS_create s path mode)) q = Some c' \<and> prefix FILE_HEADER c'"
proof -
  obtain fh s' where "GIFFS_create s path mode = (Inr fh, s')"
    and "files s' = (files s)(path \<mapsto> FILE_HEADER)"
    using GIFFS_create_ok by blast
  with assms show ?thesis by simp
qed

lemma stat_dict_eq:
  "stat_dict st =
     [''st_atime'' \<mapsto> TimeV (st_atime st), ''st_ctime'' \<mapsto> TimeV (st_ctime st),
      ''st_gid'' \<mapsto> IntV (st_gid st), ''st_mode'' \<mapsto> IntV (st_mode st),
      ''st_mtime'' \<mapsto> TimeV (st_mtime st), ''st_nlink'' \<mapsto> IntV (st_nlink st),
      ''st_size'' \<mapsto> IntV (st_size st), ''st_uid'' \<mapsto> IntV (st_uid st)]"
  by (rule ext) (simp add: stat_dict_def attr_keys_def stat_field_def List.map_filter_simps)

lemma shift_size_stat_dict:
  "shift_size (stat_dict st) delta =
     [''st_atime'' \<mapsto> TimeV (st_atime st), ''st_ctime'' \<mapsto> TimeV (st_ctime st),
      ''st_gid'' \<mapsto> IntV (st_gid st), ''st_mode'' \<mapsto> IntV (st_mode st),
      ''st_mtime'' \<mapsto> TimeV (st_mtime st), ''st_nlink'' \<mapsto> IntV (st_nlink st),
      ''st_size'' \<mapsto> IntV (st_size st + delta), ''st_uid'' \<mapsto> IntV (st_uid st)]"
  by (rule ext) (simp add: shift_size_def stat_dict_eq)

section \<open>Round trips\<close>

text \<open>
  C1. Forward mode: from any store, creating a file, writing \<open>content\<close> at view offset
  0 through the descriptor that \<^verbatim>\<open>create\<close> returned, and reading \<open>len(content)\<close>
  bytes at view offset 0 all succeed; the write reports \<open>len(content)\<close> bytes, the
  read returns \<open>content\<close>, and the backing file holds the header followed by
  \<open>content\<close>.
\<close>

theorem forward_round_trip:
  "\<exists>fh s1 s2 s3.
     GIFFS_create s path mode = (Inr fh, s1)
   \<and> GIFFS_write s1 path content 0 fh = (Inr (int (length content)), s2)
   \<and> GIFFS_read s2 path (int (length content)) 0 fh = (Inr content, s3)
   \<and> files s3 path = Some (FILE_HEADER @ content)"
proof -
  obtain fh s1 where c: "GIFFS_create s path mode = (Inr fh, s1)"
    and f1: "files s1 = (files s)(path \<mapsto> FILE_HEADER)"
    and d1: "fd_lookup s1 fh = Some \<lparr>f_path = path, f_pos = L, f_acc = O_RDWR\<rparr>"
    using GIFFS_create_ok by blast
  let ?f = "\<lparr>f_path = path, f_pos = L, f_acc = O_RDWR\<rparr>"
  have "files s1 (f_path ?f) = Some FILE_HEADER" by (simp add: f1)
  from GIFFS_write_ok [OF d1 _ this, of 0 path content]
  obtain s2 where w: "GIFFS_write s1 path content 0 fh = (Inr (int (length content)), s2)"
    and f2: "files s2 path = Some (FILE_HEADER @ content)"
    and d2: "fd_lookup s2 fh = Some (?f\<lparr>f_pos := (if content = [] then L else L + length content)\<rparr>)"
    by (auto simp: f1 L_def split: if_splits)
  let ?g = "?f\<lparr>f_pos := (if content = [] then L else L + length content)\<rparr>"
  have "files s2 (f_path ?g) = Some (FILE_HEADER @ content)" by (simp add: f2)
  from GIFFS_read_ok [OF d2 _ this, of 0 "int (length content)" path]
  obtain s3 where r: "GIFFS_read s2 path (int (length content)) 0 fh = (Inr content, s3)"
    and f3: "files s3 = files s2"
    by (auto simp: L_def)
  show ?thesis using c w r f2 f3 by auto
qed

text \<open>
  C2. Reverse mode: for a descriptor open for reading on a backing file that holds
  \<open>content\<close>, reading \<open>L + len(content)\<close> bytes at view offset 0 returns the header
  followed by \<open>content\<close>, and no file of the store has changed.
\<close>

theorem reverse_round_trip:
  assumes "fd_lookup s fh = Some f" and "f_acc f \<noteq> O_WRONLY"
    and "files s (f_path f) = Some content"
  shows "\<exists>s'. GIFFSReverse_read s path (int L + int (length content)) 0 fh
                 = (Inr (FILE_HEADER @ content), s')
            \<and> files s' = files s"
  using GIFFSReverse_read_head [OF assms, of 0 "int L + int (length content)" path]
  by (simp add: L_35)

theorem reverse_round_trip_witness:
  "\<exists>s'. GIFFSReverse_read demo_state ''/srv/a'' (int L + 4) 0 3
      = (Inr (FILE_HEADER @ [0x58, 0x59, 0x5a, 0x21]), s') \<and> files s' = files demo_state"
  using reverse_round_trip [of demo_state 3 "\<lparr>f_path = ''/srv/a'', f_pos = 2, f_acc = O_RDONLY\<rparr>"
      "[0x58, 0x59, 0x5a, 0x21]" "''/srv/a''"]
  by (simp add: demo_state_def fd_lookup_def)

section \<open>Reverse reads at the header\<close>

text \<open>
  C5. A reverse read that lies inside the header: at view offset 0 and size 10, with
  descriptor 3 open for reading, the method seeks the descriptor to 0, asks
  \<^verbatim>\<open>os.read\<close> for \<open>10 - 35\<close> bytes and raises what that raises; the ten header bytes
  are not returned, and the cursor of the descriptor, which was 2, is left at 0.
\<close>

theorem reverse_read_inside_header_raises:
  "GIFFSReverse_read demo_state ''/srv/a'' 10 0 3 =
     (Inl EINVAL, demo_state\<lparr>fdtab := [None, None, None,
         Some \<lparr>f_path = ''/srv/a'', f_pos = 0, f_acc = O_RDONLY\<rparr>]\<rparr>)"
  using GIFFSReverse_read_short [of demo_state 3 "\<lparr>f_path = ''/srv/a'', f_pos = 2, f_acc = O_RDONLY\<rparr>" 0 10 "''/srv/a''"]
  by (simp add: demo_state_def fd_lookup_def L_35)

text \<open>
  C6. Boundary splice: a reverse read of 3 bytes at view offset \<open>L - 1\<close>, through a
  descriptor open for reading on a backing file that begins with the bytes \<open>X\<close>, \<open>Y\<close>,
  returns the last byte of the header followed by \<open>X\<close> and \<open>Y\<close>.
\<close>

theorem boundary_splice:
  assumes "fd_lookup s fh = Some f" and "f_acc f \<noteq> O_WRONLY"
    and "files s (f_path f) = Some (X # Y # rest)"
  shows "\<exists>s'. GIFFSReverse_read s path 3 (int L - 1) fh
                 = (Inr (py_slice FILE_HEADER (int L - 1) (int L) @ [X, Y]), s')"
proof -
  have "py_slice FILE_HEADER (int L - 1) (int L) = drop (nat (int L - 1)) FILE_HEADER"
  proof (rule py_slice_tail)
    show "0 \<le> int L - 1" by (simp add: L_35)
    show "int (length FILE_HEADER) \<le> int L" by (simp add: L_def)
  qed
  with GIFFSReverse_read_head [OF assms, of "int L - 1" 3 path]
  show ?thesis by (auto simp: L_35)
qed

theorem boundary_splice_witness:
  "\<exists>s'. GIFFSReverse_read demo_state ''/srv/a'' 3 (int L - 1) 3
                 = (Inr (py_slice FILE_HEADER (int L - 1) (int L) @ [0x58, 0x59]), s')"
  using boundary_splice [of demo_state 3 "\<lparr>f_path = ''/srv/a'', f_pos = 2, f_acc = O_RDONLY\<rparr>"
      "0x58" "0x59" "[0x5a, 0x21]" "''/srv/a''"]
  by (simp add: demo_state_def fd_lookup_def)

section \<open>Reported size\<close>

text \<open>
  C3. Size adjustment, for a path that is a regular file: when the backing size \<open>S\<close> is
  at least \<open>L\<close>, forward \<^verbatim>\<open>getattr\<close> returns the dictionary of the eight attributes with
  \<open>st_size\<close> equal to \<open>S - L\<close>; when \<open>S\<close> is at least 0, reverse \<^verbatim>\<open>getattr\<close>
  returns it with \<open>st_size\<close> equal to \<open>S + L\<close>; the other seven entries are the
  fields of the backing stat.
\<close>

theorem getattr_size_adjustment:
  "(int L \<le> st_size st \<longrightarrow>
      GIFFS_getattr st True =
        [''st_atime'' \<mapsto> TimeV (st_atime st), ''st_ctime'' \<mapsto> TimeV (st_ctime st),
         ''st_gid'' \<mapsto> IntV (st_gid st), ''st_mode'' \<mapsto> IntV (st_mode st),
         ''st_mtime'' \<mapsto> TimeV (st_mtime st), ''st_nlink'' \<mapsto> IntV (st_nlink st),
         ''st_size'' \<mapsto> IntV (st_size st - int L), ''st_uid'' \<mapsto> IntV (st_uid st)])
   \<and> (0 \<le> st_size st \<longrightarrow>
      GIFFSReverse_getattr st True =
        [''st_atime'' \<mapsto> TimeV (st_atime st), ''st_ctime'' \<mapsto> TimeV (st_ctime st),
         ''st_gid'' \<mapsto> IntV (st_gid st), ''st_mode'' \<mapsto> IntV (st_mode st),
         ''st_mtime'' \<mapsto> TimeV (st_mtime st), ''st_nlink'' \<mapsto> IntV (st_nlink st),
         ''st_size'' \<mapsto> IntV (st_size st + int L), ''st_uid'' \<mapsto> IntV (st_uid st)])"
  by (simp add: GIFFS_getattr_def GIFFSReverse_getattr_def Let_def shift_size_stat_dict)

theorem getattr_size_adjustment_witness:
  "int L \<le> st_size (demo_stat\<lparr>st_size := 100\<rparr>) \<and> 0 \<le> st_size (demo_stat\<lparr>st_size := 100\<rparr>)
   \<and> GIFFS_getattr (demo_stat\<lparr>st_size := 100\<rparr>) True ''st_size'' = Some (IntV 65)
   \<and> GIFFSReverse_getattr (demo_stat\<lparr>st_size := 100\<rparr>) True ''st_size'' = Some (IntV 135)
   \<and> GIFFS_getattr (demo_stat\<lparr>st_size := 100\<rparr>) True ''st_mode'' = Some (IntV 33188)"
  using getattr_size_adjustment [of "demo_stat\<lparr>st_size := 100\<rparr>"]
  by (simp add: demo_stat_def L_35)

text \<open>
  C4, as the code has it. Take a backing path that is not a symbolic link, so that
  \<^verbatim>\<open>os.lstat\<close> and \<^verbatim>\<open>os.path.isfile\<close> look at the same node, with a size \<open>S\<close> that is
  not negative. Reverse \<^verbatim>\<open>getattr\<close> never reports a negative size. Forward
  \<^verbatim>\<open>getattr\<close> reports \<open>S - L\<close> for a regular file and \<open>S\<close> for any other node: its size
  is non-negative exactly when the node is not a regular file or \<open>S\<close> is at least \<open>L\<close>.
\<close>

theorem getattr_size_sign:
  assumes "0 \<le> st_size st" and "\<not> S_ISLNK (st_mode st)"
  shows "\<exists>n m. GIFFS_getattr st (os_path_isfile st target) ''st_size'' = Some (IntV n)
             \<and> GIFFSReverse_getattr st (os_path_isfile st target) ''st_size'' = Some (IntV m)
             \<and> 0 \<le> m
             \<and> n = (if S_ISREG (st_mode st) then st_size st - int L else st_size st)
             \<and> (0 \<le> n \<longleftrightarrow> (S_ISREG (st_mode st) \<longrightarrow> int L \<le> st_size st))"
proof -
  have isf: "os_path_isfile st target = S_ISREG (st_mode st)"
    using assms(2) by (simp add: os_path_isfile_def os_stat_def)
  show ?thesis
  proof (cases "S_ISREG (st_mode st)")
    case True
    with assms(1) isf show ?thesis
      by (simp add: GIFFS_getattr_def GIFFSReverse_getattr_def Let_def shift_size_stat_dict)
  next
    case False
    with assms(1) isf show ?thesis
      by (simp add: GIFFS_getattr_def GIFFSReverse_getattr_def Let_def stat_dict_eq)
  qed
qed

theorem getattr_size_sign_witness:
  "0 \<le> st_size demo_stat \<and> \<not> S_ISLNK (st_mode demo_stat) \<and> S_ISREG (st_mode demo_stat)
   \<and> (\<exists>n m. GIFFS_getattr demo_stat (os_path_isfile demo_stat None) ''st_size'' = Some (IntV n)
             \<and> GIFFSReverse_getattr demo_stat (os_path_isfile demo_stat None) ''st_size''
                 = Some (IntV m)
             \<and> 0 \<le> m \<and> n = - 25 \<and> \<not> 0 \<le> n)"
proof -
  have a: "0 \<le> st_size demo_stat" by (simp add: demo_stat_def)
  have b: "\<not> S_ISLNK (st_mode demo_stat)" by (simp add: demo_stat_def S_ISLNK_def S_IFMT_def)
  have c: "S_ISREG (st_mode demo_stat)" by (simp add: demo_stat_def S_ISREG_def S_IFMT_def)
  have d: "st_size demo_stat - int L = - 25" by (simp add: demo_stat_def L_35)
  from getattr_size_sign [OF a b, of None] a b c d show ?thesis by auto
qed

text \<open>
  C4 as stated fails: for a regular backing file of ten bytes, forward \<^verbatim>\<open>getattr\<close>
  reports the size \<open>- 25\<close>.
\<close>

theorem forward_getattr_negative_size:
  "0 \<le> st_size demo_stat
   \<and> GIFFS_getattr demo_stat True ''st_size'' = Some (IntV (- 25)) \<and> (- 25 :: int) < 0"
  by (simp add: GIFFS_getattr_def Let_def shift_size_stat_dict demo_stat_def L_35)

text \<open>
  A symbolic link to a regular file is outside the statement above: the size is the
  link's own, the test sees the file the link resolves to, and forward \<^verbatim>\<open>getattr\<close>
  reports \<open>4 - 35\<close>.
\<close>

lemma forward_getattr_symlink:
  "S_ISLNK (st_mode demo_link_stat) \<and> os_path_isfile demo_link_stat (Some demo_stat)
   \<and> GIFFS_getattr demo_link_stat (os_path_isfile demo_link_stat (Some demo_stat)) ''st_size''
       = Some (IntV (- 31))"
proof -
  have a: "S_ISLNK (st_mode demo_link_stat)"
    by (simp add: demo_link_stat_def S_ISLNK_def S_IFMT_def)
  have b: "os_path_isfile demo_link_stat (Some demo_stat)"
    using a by (simp add: os_path_isfile_def os_stat_def demo_stat_def S_ISREG_def S_IFMT_def)
  have c: "GIFFS_getattr demo_link_stat True ''st_size'' = Some (IntV (- 31))"
    by (simp add: GIFFS_getattr_def Let_def shift_size_stat_dict demo_link_stat_def L_35)
  from a b c show ?thesis by simp
qed

section \<open>The signature under truncate and write\<close>

text \<open>
  C7, as the code has it. Truncate preserves the signature. Take an existing backing
  file on a filesystem whose largest file size \<open>maxbytes\<close> is at least \<open>L\<close>. A forward
  truncate to view length 0 succeeds and leaves a backing file of exactly \<open>L\<close> bytes,
  which begins with the header if the file did; a following read of \<open>L\<close> bytes at view
  offset 0, through any descriptor open on the file for reading, returns no bytes. A
  forward truncate to a view length \<open>len\<close> that is not negative succeeds and leaves a
  backing file of \<open>len + L\<close> bytes, still beginning with the header if it did, when
  \<open>len + L\<close> is at most \<open>maxbytes\<close> and below \<open>2 ^ 63\<close>; for a larger \<open>len\<close> it raises and
  leaves the store as it was.
\<close>

theorem truncate_preserves_signature:
  assumes "files s path = Some c" and "L \<le> maxbytes"
  shows "\<exists>s1 c1.
           GIFFS_truncate maxbytes s path 0 = (Inr (), s1)
         \<and> files s1 path = Some c1 \<and> length c1 = L
         \<and> (prefix FILE_HEADER c \<longrightarrow> prefix FILE_HEADER c1)
         \<and> (\<forall>fh f. fd_lookup s fh = Some f \<and> f_path f = path \<and> f_acc f \<noteq> O_WRONLY
               \<longrightarrow> (\<exists>s2. GIFFS_read s1 path (int L) 0 fh = (Inr [], s2)))
         \<and> (0 \<le> len \<and> len + int L \<le> int maxbytes \<and> len + int L < 2 ^ 63
               \<longrightarrow> (\<exists>s3 c3. GIFFS_truncate maxbytes s path len = (Inr (), s3)
                      \<and> files s3 path = Some c3 \<and> int (length c3) = len + int L
                      \<and> (prefix FILE_HEADER c \<longrightarrow> prefix FILE_HEADER c3)))
         \<and> (0 \<le> len \<and> (int maxbytes < len + int L \<or> 2 ^ 63 \<le> len + int L)
               \<longrightarrow> (\<exists>e. GIFFS_truncate maxbytes s path len = (Inl e, s)))"
proof -
  let ?c1 = "take (nat (0 + int L)) c @ replicate (nat (0 + int L) - length c) 0"
  let ?s1 = "s\<lparr>files := (files s)(path \<mapsto> ?c1)\<rparr>"
  have small: "0 + int L < 2 ^ 63" by (simp add: L_35)
  have t0: "GIFFS_truncate maxbytes s path 0 = (Inr (), ?s1)"
    unfolding GIFFS_truncate_def using assms(1) _ _ small
    by (rule file_truncate_ok) (use assms(2) in simp_all)
  have f1: "files ?s1 path = Some ?c1" by simp
  have l1: "length ?c1 = L" by simp
  have p1: "prefix FILE_HEADER c \<longrightarrow> prefix FILE_HEADER ?c1"
    using resize_keeps_header [of c L] by simp
  have r1: "\<forall>fh f. fd_lookup s fh = Some f \<and> f_path f = path \<and> f_acc f \<noteq> O_WRONLY
               \<longrightarrow> (\<exists>s2. GIFFS_read ?s1 path (int L) 0 fh = (Inr [], s2))"
  proof (intro allI impI)
    fix fh f
    assume h: "fd_lookup s fh = Some f \<and> f_path f = path \<and> f_acc f \<noteq> O_WRONLY"
    have d1: "fd_lookup ?s1 fh = Some f"
      using h by (simp add: fd_lookup_def split: if_splits)
    have w: "f_acc f \<noteq> O_WRONLY" using h by simp
    have g: "files ?s1 (f_path f) = Some ?c1" using h by simp
    from GIFFS_read_ok [OF d1 w g, of 0 "int L" path]
    show "\<exists>s2. GIFFS_read ?s1 path (int L) 0 fh = (Inr [], s2)" by auto
  qed
  have ok: "0 \<le> len \<and> len + int L \<le> int maxbytes \<and> len + int L < 2 ^ 63
               \<longrightarrow> (\<exists>s3 c3. GIFFS_truncate maxbytes s path len = (Inr (), s3)
                      \<and> files s3 path = Some c3 \<and> int (length c3) = len + int L
                      \<and> (prefix FILE_HEADER c \<longrightarrow> prefix FILE_HEADER c3))"
  proof (intro impI)
    assume h: "0 \<le> len \<and> len + int L \<le> int maxbytes \<and> len + int L < 2 ^ 63"
    let ?c3 = "take (nat (len + int L)) c @ replicate (nat (len + int L) - length c) 0"
    let ?s3 = "s\<lparr>files := (files s)(path \<mapsto> ?c3)\<rparr>"
    have t3: "GIFFS_truncate maxbytes s path len = (Inr (), ?s3)"
      unfolding GIFFS_truncate_def using assms(1)
      by (rule file_truncate_ok) (use h in simp_all)
    have f3: "files ?s3 path = Some ?c3" by simp
    have "length ?c3 = nat (len + int L)" by simp
    then have l3: "int (length ?c3) = len + int L" using h by simp
    have "L \<le> nat (len + int L)" using h by linarith
    then have p3: "prefix FILE_HEADER c \<longrightarrow> prefix FILE_HEADER ?c3"
      using resize_keeps_header [of c "nat (len + int L)"] by simp
    from t3 f3 l3 p3
    show "\<exists>s3 c3. GIFFS_truncate maxbytes s path len = (Inr (), s3)
            \<and> files s3 path = Some c3 \<and> int (length c3) = len + int L
            \<and> (prefix FILE_HEADER c \<longrightarrow> prefix FILE_HEADER c3)" by blast
  qed
  have no: "0 \<le> len \<and> (int maxbytes < len + int L \<or> 2 ^ 63 \<le> len + int L)
               \<longrightarrow> (\<exists>e. GIFFS_truncate maxbytes s path len = (Inl e, s))"
  proof (intro impI)
    assume h: "0 \<le> len \<and> (int maxbytes < len + int L \<or> 2 ^ 63 \<le> len + int L)"
    show "\<exists>e. GIFFS_truncate maxbytes s path len = (Inl e, s)"
      unfolding GIFFS_truncate_def using assms(1)
      by (rule file_truncate_refused) (use h in simp_all)
  qed
  from t0 f1 l1 p1 r1 ok no show ?thesis by blast
qed

theorem truncate_preserves_signature_witness:
  "\<exists>s1 c1 s2 s3 c3.
           GIFFS_truncate (2 ^ 44) demo_fwd ''/srv/b'' 0 = (Inr (), s1)
         \<and> files s1 ''/srv/b'' = Some c1 \<and> length c1 = L \<and> prefix FILE_HEADER c1
         \<and> GIFFS_read s1 ''/srv/b'' (int L) 0 3 = (Inr [], s2)
         \<and> GIFFS_truncate (2 ^ 44) demo_fwd ''/srv/b'' 1 = (Inr (), s3)
         \<and> files s3 ''/srv/b'' = Some c3 \<and> int (length c3) = 1 + int L \<and> prefix FILE_HEADER c3"
proof -
  have a: "files demo_fwd ''/srv/b'' = Some (FILE_HEADER @ [0x68, 0x69])"
    by (simp add: demo_fwd_def)
  have b: "L \<le> 2 ^ 44" by (simp add: L_35)
  have p: "prefix FILE_HEADER (FILE_HEADER @ [0x68, 0x69 :: byte])" by simp
  have d: "fd_lookup demo_fwd 3 = Some \<lparr>f_path = ''/srv/b'', f_pos = 0, f_acc = O_RDWR\<rparr>
      \<and> f_path \<lparr>f_path = ''/srv/b'', f_pos = 0, f_acc = O_RDWR\<rparr> = ''/srv/b''
      \<and> f_acc \<lparr>f_path = ''/srv/b'', f_pos = 0, f_acc = O_RDWR\<rparr> \<noteq> O_WRONLY"
    by (simp add: demo_fwd_def fd_lookup_def)
  have r: "(0::int) \<le> 1 \<and> 1 + int L \<le> int (2 ^ 44) \<and> 1 + int L < 2 ^ 63"
    by (simp add: L_35)
  from truncate_preserves_signature [OF a b, of 1] p d r show ?thesis by blast
qed

text \<open>
  C7 as stated fails: a forward truncate to the view length \<open>2 ^ 63 - 35\<close>, which fits a
  signed 64-bit file offset, asks for a backing length of \<open>2 ^ 63\<close>; it raises, whatever
  the filesystem supports, and the backing file keeps its 37 bytes.
\<close>

theorem truncate_huge_length_refused:
  "GIFFS_truncate (2 ^ 63 - 1) demo_fwd ''/srv/b'' (2 ^ 63 - 35) = (Inl OverflowError, demo_fwd)
   \<and> files demo_fwd ''/srv/b'' = Some (FILE_HEADER @ [0x68, 0x69])
   \<and> int (length (FILE_HEADER @ [0x68, 0x69 :: byte])) \<noteq> (2 ^ 63 - 35) + int L"
  by (simp add: GIFFS_truncate_def file_truncate_def demo_fwd_def L_35 FILE_HEADER_bytes)

text \<open>
  C9. The signature cannot be overwritten through the forward view. Take any backing
  file of at least \<open>L\<close> bytes. Whatever a forward write at a view offset that is not
  negative does, with any descriptor and any data, and whether it succeeds or raises,
  the file is still there with the same first \<open>L\<close> bytes; the same holds for a
  forward truncate of any path to a view length that is not negative, on any
  filesystem. After a forward create of any path the file is still there too, and
  begins with the header if it did before.
\<close>

theorem signature_unforgeable:
  assumes "files s q = Some c" and "L \<le> length c" and "0 \<le> offset" and "0 \<le> len"
  shows "(\<exists>c'. files (snd (GIFFS_write s path data offset fh)) q = Some c' \<and> take L c' = take L c)
       \<and> (\<exists>c'. files (snd (GIFFS_truncate maxbytes s path' len)) q = Some c'
              \<and> take L c' = take L c)
       \<and> (\<exists>c'. files (snd (GIFFS_create s path'' mode)) q = Some c'
              \<and> (prefix FILE_HEADER c \<longrightarrow> prefix FILE_HEADER c'))"
proof (intro conjI)
  show "\<exists>c'. files (snd (GIFFS_write s path data offset fh)) q = Some c' \<and> take L c' = take L c"
    using assms(1,2,3) by (rule GIFFS_write_keeps_header)
  show "\<exists>c'. files (snd (GIFFS_truncate maxbytes s path' len)) q = Some c'
              \<and> take L c' = take L c"
    using assms(1,2,4) by (rule GIFFS_truncate_keeps_header)
  show "\<exists>c'. files (snd (GIFFS_create s path'' mode)) q = Some c'
              \<and> (prefix FILE_HEADER c \<longrightarrow> prefix FILE_HEADER c')"
  proof (cases "prefix FILE_HEADER c")
    case True
    with GIFFS_create_keeps_header [OF assms(1) True, of path'' mode] show ?thesis by blast
  next
    case False
    obtain fh' s' where "GIFFS_create s path'' mode = (Inr fh', s')"
      and "files s' = (files s)(path'' \<mapsto> FILE_HEADER)"
      using GIFFS_create_ok by blast
    with assms(1) False show ?thesis by simp
  qed
qed

theorem signature_unforgeable_witness:
  "files demo_fwd ''/srv/b'' = Some (FILE_HEADER @ [0x68, 0x69])
   \<and> L \<le> length (FILE_HEADER @ [0x68, 0x69 :: byte])
   \<and> (\<exists>c'. files (snd (GIFFS_write demo_fwd ''/srv/b'' [0x21] 0 3)) ''/srv/b'' = Some c'
          \<and> take L c' = take L (FILE_HEADER @ [0x68, 0x69]))
   \<and> (\<exists>c'. files (snd (GIFFS_truncate (2 ^ 44) demo_fwd ''/srv/b'' 0)) ''/srv/b'' = Some c'
          \<and> take L c' = take L (FILE_HEADER @ [0x68, 0x69]))
   \<and> (\<exists>c'. files (snd (GIFFS_create demo_fwd ''/srv/b'' 420)) ''/srv/b'' = Some c'
          \<and> prefix FILE_HEADER c')"
proof -
  have a: "files demo_fwd ''/srv/b'' = Some (FILE_HEADER @ [0x68, 0x69])"
    by (simp add: demo_fwd_def)
  have b: "L \<le> length (FILE_HEADER @ [0x68, 0x69 :: byte])"
    by (simp add: L_def)
  have c: "prefix FILE_HEADER (FILE_HEADER @ [0x68, 0x69 :: byte])"
    by simp
  from signature_unforgeable [OF a b, of 0 0 "''/srv/b''" "[0x21]" 3 "2 ^ 44" "''/srv/b''"
      "''/srv/b''" 420] a b c
  show ?thesis by simp
qed

end
